theory Spec2Isabelle
  imports Main "HOL-Library.Word" "HOL-Library.Sublist"
begin

section \<open>The SharpNeedle bootstrapper: data model\<close>

text \<open>
  The embedded program is \<^verbatim>\<open>Bootstrapper.cpp\<close>: the exported entry point
  \<^verbatim>\<open>AdapterEntryPoint\<close> and the runtime acquirer \<^verbatim>\<open>StartCLR\<close>. The
  CLR hosting API (\<^verbatim>\<open>CLRCreateInstance\<close>, \<^verbatim>\<open>ICLRMetaHost\<close>,
  \<^verbatim>\<open>ICLRRuntimeInfo\<close>, \<^verbatim>\<open>ICLRRuntimeHost\<close>) belongs to the platform, so
  what each of its calls answers is a parameter of the model, and every call the program
  makes is written to a trace.
\<close>

type_synonym wchar = "16 word"
type_synonym wstring = "wchar list"
type_synonym HRESULT = "32 word"
type_synonym BOOL = "32 word"
type_synonym DWORD = "32 word"
type_synonym ptr = nat

definition S_OK :: HRESULT where
  "S_OK = 0"

definition NULL :: ptr where
  "NULL = 0"

text \<open>A wide string literal \<^verbatim>\<open>L"..."\<close>: every character widened to a \<^verbatim>\<open>wchar_t\<close>.\<close>

definition L :: "string \<Rightarrow> wstring" where
  "L s = map of_char s"

text \<open>
  What the program can do wrong at run time: call a method through a null interface
  pointer, or index a vector out of range (\<^verbatim>\<open>std::vector::at\<close> throws).
\<close>

datatype error = NullDereference | OutOfRange

text \<open>
  The answers of the hosting API. An out-parameter is given by the value the variable
  holds after the call; the pointers start as \<^verbatim>\<open>NULL\<close> in the source, so a call
  that leaves its out-parameter alone answers \<^verbatim>\<open>NULL\<close>.
\<close>

record clr_env =
  CLRCreateInstance :: "HRESULT \<times> ptr"
  GetRuntime :: "wstring \<Rightarrow> HRESULT \<times> ptr"
  IsLoadable :: "HRESULT \<times> BOOL"
  GetInterface :: "HRESULT \<times> ptr"
  Start :: HRESULT
  ExecuteInDefaultAppDomain :: "wstring \<Rightarrow> wstring \<Rightarrow> wstring \<Rightarrow> wstring \<Rightarrow> HRESULT \<times> DWORD"

text \<open>
  The calls the program makes on the platform, in order. A call that hands out an
  interface pointer records the pointer it left in the out-parameter; a method call
  records the interface it was made on.
\<close>

datatype event =
    Ev_CLRCreateInstance ptr
  | Ev_GetRuntime ptr wstring ptr
  | Ev_IsLoadable ptr
  | Ev_GetInterface ptr ptr
  | Ev_Start ptr
  | Ev_Release ptr
  | Ev_ExecuteInDefaultAppDomain ptr wstring wstring wstring wstring

section \<open>The argument parser\<close>

text \<open>
  Modelled from the spec: \<^verbatim>\<open>split\<close> is declared in \<^verbatim>\<open>Bootstrapper.h\<close>, which is
  not among the sources. The spec (4.1): given one input string and a delimiter literal,
  produce an ordered sequence of substrings split on every occurrence of the delimiter,
  preserving order and including empty substrings where delimiters are adjacent or at
  string boundaries; no trimming, no escaping. Occurrences are taken from the left; an
  empty delimiter occurs nowhere.
\<close>

function split :: "'a list \<Rightarrow> 'a list \<Rightarrow> 'a list list" where
  "split s delim =
     (if delim = [] then [s]
      else if s = [] then [[]]
      else if prefix delim s then [] # split (drop (length delim) s) delim
      else (case split (tl s) delim of
              [] \<Rightarrow> [[hd s]]
            | f # fs \<Rightarrow> (hd s # f) # fs))"
  by pat_completeness auto
termination
  by (relation "measure (\<lambda>(s, delim). length s)") auto

declare split.simps [simp del]

text \<open>The inverse of splitting: the fields written out with the delimiter between them.\<close>

fun join :: "'a list \<Rightarrow> 'a list list \<Rightarrow> 'a list" where
  "join delim [] = []"
| "join delim [f] = f"
| "join delim (f # g # fs) = f @ delim @ join delim (g # fs)"

section \<open>The runtime acquirer\<close>

text \<open>The block after the comment \<^verbatim>\<open>Cleanup if failed\<close>: each non-null pointer is released.\<close>

definition cleanup :: "ptr \<Rightarrow> ptr \<Rightarrow> ptr \<Rightarrow> event list" where
  "cleanup pClrRuntimeHost pClrRuntimeInfo pClrMetaHost =
     (if pClrRuntimeHost \<noteq> NULL then [Ev_Release pClrRuntimeHost] else []) @
     (if pClrRuntimeInfo \<noteq> NULL then [Ev_Release pClrRuntimeInfo] else []) @
     (if pClrMetaHost \<noteq> NULL then [Ev_Release pClrMetaHost] else [])"

definition StartCLR :: "clr_env \<Rightarrow> wstring \<Rightarrow> (error + ptr) \<times> event list" where
  "StartCLR env dotNetVersion =
     (let (hr1, pClrMetaHost) = CLRCreateInstance env;
          t1 = [Ev_CLRCreateInstance pClrMetaHost]
      in if hr1 = S_OK then
           if pClrMetaHost = NULL then (Inl NullDereference, t1)
           else
             let (hr2, pClrRuntimeInfo) = GetRuntime env dotNetVersion;
                 t2 = t1 @ [Ev_GetRuntime pClrMetaHost dotNetVersion pClrRuntimeInfo]
             in if hr2 = S_OK then
                  if pClrRuntimeInfo = NULL then (Inl NullDereference, t2)
                  else
                    let (hr3, fLoadable) = IsLoadable env;
                        t3 = t2 @ [Ev_IsLoadable pClrRuntimeInfo]
                    in if hr3 = S_OK \<and> fLoadable \<noteq> 0 then
                         let (hr4, pClrRuntimeHost) = GetInterface env;
                             t4 = t3 @ [Ev_GetInterface pClrRuntimeInfo pClrRuntimeHost]
                         in if hr4 = S_OK then
                              if pClrRuntimeHost = NULL then (Inl NullDereference, t4)
                              else
                                let hr5 = Start env
                                in (Inr pClrRuntimeHost, t4 @ [Ev_Start pClrRuntimeHost])
                            else (Inr NULL,
                                  t4 @ cleanup pClrRuntimeHost pClrRuntimeInfo pClrMetaHost)
                       else (Inr NULL, t3 @ cleanup NULL pClrRuntimeInfo pClrMetaHost)
                else (Inr NULL, t2 @ cleanup NULL pClrRuntimeInfo pClrMetaHost)
         else (Inr NULL, t1 @ cleanup NULL NULL pClrMetaHost))"

text \<open>
  The out-parameter contract of COM that the source relies on when it calls through a
  pointer it has just been given: a call that answers \<^verbatim>\<open>S_OK\<close> has stored a
  non-null interface pointer.
\<close>

definition com_contract :: "clr_env \<Rightarrow> wstring \<Rightarrow> bool" where
  "com_contract env dotNetVersion \<longleftrightarrow>
     (fst (CLRCreateInstance env) = S_OK \<longrightarrow> snd (CLRCreateInstance env) \<noteq> NULL) \<and>
     (fst (GetRuntime env dotNetVersion) = S_OK \<longrightarrow> snd (GetRuntime env dotNetVersion) \<noteq> NULL) \<and>
     (fst (GetInterface env) = S_OK \<longrightarrow> snd (GetInterface env) \<noteq> NULL)"

text \<open>The four sequential acquisition steps all succeed.\<close>

definition steps_ok :: "clr_env \<Rightarrow> wstring \<Rightarrow> bool" where
  "steps_ok env dotNetVersion \<longleftrightarrow>
     fst (CLRCreateInstance env) = S_OK \<and>
     fst (GetRuntime env dotNetVersion) = S_OK \<and>
     (fst (IsLoadable env) = S_OK \<and> snd (IsLoadable env) \<noteq> 0) \<and>
     fst (GetInterface env) = S_OK"

section \<open>The entry point\<close>

text \<open>
  \<^verbatim>\<open>std::vector::at\<close>: bounds-checked access. The entry point's argument
  \<^verbatim>\<open>adapterDllArg\<close> is taken as the wide string the pointer points to; the result
  type \<^verbatim>\<open>void\<close> is \<^typ>\<open>unit\<close>, and the locals \<^verbatim>\<open>hr\<close> and \<^verbatim>\<open>result\<close> are
  bound and not used, as in the source.
\<close>

definition at :: "'a list \<Rightarrow> nat \<Rightarrow> error + 'a" where
  "at v i = (if i < length v then Inr (v ! i) else Inl OutOfRange)"

definition AdapterEntryPoint :: "clr_env \<Rightarrow> wstring \<Rightarrow> (error + unit) \<times> event list" where
  "AdapterEntryPoint env adapterDllArg =
     (let parts = split adapterDllArg (L ''*'')
      in if length parts < 4 then (Inr (), [])
         else
           (case at parts 0 of Inl e \<Rightarrow> (Inl e, []) | Inr managedDllLocation \<Rightarrow>
           (case at parts 1 of Inl e \<Rightarrow> (Inl e, []) | Inr managedDllClass \<Rightarrow>
           (case at parts 2 of Inl e \<Rightarrow> (Inl e, []) | Inr managedDllFunction \<Rightarrow>
           (case at parts 3 of Inl e \<Rightarrow> (Inl e, []) | Inr scubaDiverArg \<Rightarrow>
           (case StartCLR env (L ''v4.0.30319'') of
              (Inl e, t) \<Rightarrow> (Inl e, t)
            | (Inr pClr, t) \<Rightarrow>
                if pClr \<noteq> NULL
                then
                  let (hr, result) = ExecuteInDefaultAppDomain env managedDllLocation
                                       managedDllClass managedDllFunction scubaDiverArg
                  in (Inr (), t @ [Ev_ExecuteInDefaultAppDomain pClr managedDllLocation
                                     managedDllClass managedDllFunction scubaDiverArg])
                else (Inr (), t)))))))"

section \<open>Reading a trace\<close>

text \<open>The interface pointers handed out (those the cleanup would see as non-null).\<close>

fun acquired_by :: "event \<Rightarrow> ptr list" where
  "acquired_by (Ev_CLRCreateInstance p) = (if p \<noteq> NULL then [p] else [])"
| "acquired_by (Ev_GetRuntime this v p) = (if p \<noteq> NULL then [p] else [])"
| "acquired_by (Ev_GetInterface this p) = (if p \<noteq> NULL then [p] else [])"
| "acquired_by _ = []"

definition acquired :: "event list \<Rightarrow> ptr list" where
  "acquired t = concat (map acquired_by t)"

text \<open>
  The intermediate handles only: the metahost (runtime discovery) and the runtime info,
  not the runtime host.
\<close>

fun intermediate_by :: "event \<Rightarrow> ptr list" where
  "intermediate_by (Ev_CLRCreateInstance p) = (if p \<noteq> NULL then [p] else [])"
| "intermediate_by (Ev_GetRuntime this v p) = (if p \<noteq> NULL then [p] else [])"
| "intermediate_by _ = []"

definition intermediate :: "event list \<Rightarrow> ptr list" where
  "intermediate t = concat (map intermediate_by t)"

fun released_by :: "event \<Rightarrow> ptr list" where
  "released_by (Ev_Release p) = [p]"
| "released_by _ = []"

definition released :: "event list \<Rightarrow> ptr list" where
  "released t = concat (map released_by t)"

fun requested_by :: "event \<Rightarrow> wstring list" where
  "requested_by (Ev_GetRuntime this v p) = [v]"
| "requested_by _ = []"

definition requested_versions :: "event list \<Rightarrow> wstring list" where
  "requested_versions t = concat (map requested_by t)"

fun invoked_by :: "event \<Rightarrow> (ptr \<times> wstring \<times> wstring \<times> wstring \<times> wstring) list" where
  "invoked_by (Ev_ExecuteInDefaultAppDomain this a c f x) = [(this, a, c, f, x)]"
| "invoked_by _ = []"

definition invoked :: "event list \<Rightarrow> (ptr \<times> wstring \<times> wstring \<times> wstring \<times> wstring) list" where
  "invoked t = concat (map invoked_by t)"

section \<open>Example environments\<close>

text \<open>Every step succeeds: metahost 1, runtime info 2, runtime host 3.\<close>

definition env_all_ok :: clr_env where
  "env_all_ok =
     \<lparr>CLRCreateInstance = (S_OK, 1), GetRuntime = (\<lambda>v. (S_OK, 2)), IsLoadable = (S_OK, 1),
      GetInterface = (S_OK, 3), Start = S_OK,
      ExecuteInDefaultAppDomain = (\<lambda>a c f x. (S_OK, 0))\<rparr>"

text \<open>The runtime is found but reported not loadable.\<close>

definition env_not_loadable :: clr_env where
  "env_not_loadable = env_all_ok\<lparr>IsLoadable := (S_OK, 0)\<rparr>"

text \<open>The host interface is obtained, but \<^verbatim>\<open>Start\<close> answers \<^verbatim>\<open>E_FAIL\<close>.\<close>

definition env_start_fails :: clr_env where
  "env_start_fails = env_all_ok\<lparr>Start := 0x80004005\<rparr>"

section \<open>Facts about the parser\<close>

lemma split_not_Nil: "split s d \<noteq> []"
  by (induction s d rule: split.induct) (subst split.simps, auto split: list.splits)

lemma split_single_Nil: "split [] [c] = [[]]"
  by (subst split.simps) simp

lemma split_single_eq: "split (c # xs) [c] = [] # split xs [c]"
  by (subst split.simps) simp

lemma split_single_neq:
  "c \<noteq> x \<Longrightarrow> split (x # xs) [c] = (x # hd (split xs [c])) # tl (split xs [c])"
  using split_not_Nil[of xs "[c]"]
  by (subst split.simps) (auto split: list.splits)

lemma join_Cons: "fs \<noteq> [] \<Longrightarrow> join d (f # fs) = f @ d @ join d fs"
  by (cases fs) auto

text \<open>Writing the fields out again gives back the input, for any delimiter.\<close>

lemma join_split: "join d (split s d) = s"
proof (induction s d rule: split.induct)
  case (1 s delim)
  show ?case
  proof (cases "delim = [] \<or> s = []")
    case True
    then show ?thesis by (subst split.simps) auto
  next
    case ne: False
    show ?thesis
    proof (cases "prefix delim s")
      case True
      then obtain r where s: "s = delim @ r" by (auto simp: prefix_def)
      from ne True 1(1)
      have "join delim (split (drop (length delim) s) delim) = drop (length delim) s"
        by simp
      with ne True s show ?thesis
        by (subst split.simps) (simp add: join_Cons split_not_Nil)
    next
      case False
      from ne False 1(2) have ih: "join delim (split (tl s) delim) = tl s" by simp
      obtain f fs where sp: "split (tl s) delim = f # fs"
        using split_not_Nil[of "tl s" delim] by (cases "split (tl s) delim") auto
      have "join delim ((hd s # f) # fs) = hd s # join delim (f # fs)"
        by (cases fs) auto
      with ne False ih sp show ?thesis
        by (subst split.simps) simp
    qed
  qed
qed

text \<open>With a one-character delimiter no field contains the delimiter.\<close>

lemma split_char_free: "c \<notin> set (concat (split s [c]))"
proof (induction s)
  case Nil
  then show ?case by (simp add: split_single_Nil)
next
  case (Cons x xs)
  then show ?case
    using split_not_Nil[of xs "[c]"]
    by (cases "c = x"; cases "split xs [c]") (simp_all add: split_single_eq split_single_neq)
qed

lemma length_split_char: "length (split s [c]) = Suc (count_list s c)"
proof (induction s)
  case Nil
  then show ?case by (simp add: split_single_Nil)
next
  case (Cons x xs)
  then show ?case
    using split_not_Nil[of xs "[c]"]
    by (cases "c = x"; cases "split xs [c]") (simp_all add: split_single_eq split_single_neq)
qed

lemma split_field_append: "c \<notin> set f \<Longrightarrow> split (f @ c # r) [c] = f # split r [c]"
  by (induction f) (simp_all add: split_single_eq split_single_neq)

lemma split_field_only: "c \<notin> set f \<Longrightarrow> split f [c] = [f]"
  by (induction f) (simp_all add: split_single_Nil split_single_neq)

text \<open>Splitting what was joined from delimiter-free fields gives the fields back.\<close>

lemma split_join:
  "fs \<noteq> [] \<Longrightarrow> c \<notin> set (concat fs) \<Longrightarrow> split (join [c] fs) [c] = fs"
proof (induction fs rule: induct_list012)
  case 1
  then show ?case by simp
next
  case (2 f)
  then show ?case by (simp add: split_field_only)
next
  case (3 f g fs)
  then show ?case by (simp add: split_field_append)
qed

lemma L_star: "L ''*'' = [42]"
  by (simp add: L_def)

lemma split_abcd: "split (L ''a*b*c*d'') (L ''*'') = [L ''a'', L ''b'', L ''c'', L ''d'']"
  by code_simp

lemma split_abcde:
  "split (L ''a*b*c*d*e'') (L ''*'') = [L ''a'', L ''b'', L ''c'', L ''d'', L ''e'']"
  by code_simp

lemma split_ab: "split (L ''a*b'') (L ''*'') = [L ''a'', L ''b'']"
  by code_simp

section \<open>Facts about the acquirer and the entry point\<close>

lemma StartCLR_all_ok:
  "StartCLR env_all_ok v =
     (Inr 3, [Ev_CLRCreateInstance 1, Ev_GetRuntime 1 v 2, Ev_IsLoadable 2,
              Ev_GetInterface 2 3, Ev_Start 3])"
  by (simp add: StartCLR_def env_all_ok_def Let_def S_OK_def NULL_def)

lemma StartCLR_not_loadable:
  "StartCLR env_not_loadable v =
     (Inr NULL, [Ev_CLRCreateInstance 1, Ev_GetRuntime 1 v 2, Ev_IsLoadable 2,
                 Ev_Release 2, Ev_Release 1])"
  by (simp add: StartCLR_def env_not_loadable_def env_all_ok_def Let_def S_OK_def NULL_def
        cleanup_def)

lemma StartCLR_start_fails:
  "StartCLR env_start_fails v =
     (Inr 3, [Ev_CLRCreateInstance 1, Ev_GetRuntime 1 v 2, Ev_IsLoadable 2,
              Ev_GetInterface 2 3, Ev_Start 3])"
  by (simp add: StartCLR_def env_start_fails_def env_all_ok_def Let_def S_OK_def NULL_def)

lemma com_contract_all_ok: "com_contract env_all_ok v"
  by (simp add: com_contract_def env_all_ok_def NULL_def)

lemma com_contract_not_loadable: "com_contract env_not_loadable v"
  by (simp add: com_contract_def env_not_loadable_def env_all_ok_def NULL_def)

lemma com_contract_start_fails: "com_contract env_start_fails v"
  by (simp add: com_contract_def env_start_fails_def env_all_ok_def NULL_def)

text \<open>Under the out-parameter contract the acquirer never calls through a null pointer.\<close>

lemma StartCLR_returns:
  "com_contract env v \<Longrightarrow>
     fst (StartCLR env v) = (if steps_ok env v then Inr (snd (GetInterface env)) else Inr NULL)"
  by (auto simp: com_contract_def steps_ok_def StartCLR_def Let_def split_beta)

text \<open>The acquirer starts no managed method, and does not look at what one would answer.\<close>

lemma invoked_StartCLR: "invoked (snd (StartCLR env v)) = []"
  by (simp add: StartCLR_def Let_def split_beta invoked_def cleanup_def)

lemma StartCLR_Execute_update:
  "StartCLR (env\<lparr>ExecuteInDefaultAppDomain := e\<rparr>) v = StartCLR env v"
  by (simp add: StartCLR_def Let_def split_beta)

text \<open>Nor does what \<^verbatim>\<open>Start\<close> answers change what the acquirer returns or calls.\<close>

lemma StartCLR_Start_update: "StartCLR (env\<lparr>Start := h\<rparr>) v = StartCLR env v"
  by (simp add: StartCLR_def Let_def split_beta)

lemma requested_versions_StartCLR:
  "requested_versions (snd (StartCLR env v)) =
     (if fst (CLRCreateInstance env) = S_OK \<and> snd (CLRCreateInstance env) \<noteq> NULL
      then [v] else [])"
  by (simp add: StartCLR_def Let_def split_beta requested_versions_def cleanup_def)

lemma at_less: "i < length v \<Longrightarrow> at v i = Inr (v ! i)"
  by (simp add: at_def)

text \<open>The two ways through the entry point, by the number of fields.\<close>

lemma AdapterEntryPoint_short:
  "length (split arg (L ''*'')) < 4 \<Longrightarrow> AdapterEntryPoint env arg = (Inr (), [])"
  by (simp add: AdapterEntryPoint_def Let_def)

lemma AdapterEntryPoint_long:
  assumes "4 \<le> length (split arg (L ''*''))"
  shows "AdapterEntryPoint env arg =
    (case StartCLR env (L ''v4.0.30319'') of
       (Inl e, t) \<Rightarrow> (Inl e, t)
     | (Inr pClr, t) \<Rightarrow>
        if pClr \<noteq> NULL
        then (Inr (), t @ [Ev_ExecuteInDefaultAppDomain pClr
                (split arg (L ''*'') ! 0) (split arg (L ''*'') ! 1)
                (split arg (L ''*'') ! 2) (split arg (L ''*'') ! 3)])
        else (Inr (), t))"
proof -
  have "at (split arg (L ''*'')) 0 = Inr (split arg (L ''*'') ! 0)"
    by (rule at_less) (use assms in linarith)
  moreover have "at (split arg (L ''*'')) 1 = Inr (split arg (L ''*'') ! 1)"
    by (rule at_less) (use assms in linarith)
  moreover have "at (split arg (L ''*'')) 2 = Inr (split arg (L ''*'') ! 2)"
    by (rule at_less) (use assms in linarith)
  moreover have "at (split arg (L ''*'')) 3 = Inr (split arg (L ''*'') ! 3)"
    by (rule at_less) (use assms in linarith)
  ultimately show ?thesis
    using assms by (simp add: AdapterEntryPoint_def Let_def split_beta split: sum.split)
qed

section \<open>Properties of the bootstrapper\<close>

text \<open>
  C1. The managed method is invoked exactly when the input has at least four fields and
  the acquirer returned a non-null host. With fewer than four fields the entry point
  returns normally, having made no platform call at all; when the acquirer returns null
  nothing is invoked.
\<close>

theorem invoke_only_after_parse_and_acquire:
  "(invoked (snd (AdapterEntryPoint env arg)) \<noteq> [] \<longleftrightarrow>
      4 \<le> length (split arg (L ''*'')) \<and>
      (\<exists>p. fst (StartCLR env (L ''v4.0.30319'')) = Inr p \<and> p \<noteq> NULL)) \<and>
   (length (split arg (L ''*'')) < 4 \<longrightarrow> AdapterEntryPoint env arg = (Inr (), [])) \<and>
   (fst (StartCLR env (L ''v4.0.30319'')) = Inr NULL \<longrightarrow>
      invoked (snd (AdapterEntryPoint env arg)) = [])"
proof (cases "length (split arg (L ''*'')) < 4")
  case True
  then show ?thesis by (simp add: AdapterEntryPoint_short invoked_def)
next
  case False
  then have "4 \<le> length (split arg (L ''*''))" by simp
  then show ?thesis
    using invoked_StartCLR[of env "L ''v4.0.30319''"]
    by (cases "StartCLR env (L ''v4.0.30319'')")
       (auto simp: AdapterEntryPoint_long invoked_def split: sum.splits)
qed

theorem invoke_only_after_parse_and_acquire_witness:
  "invoked (snd (AdapterEntryPoint env_all_ok (L ''a*b*c*d''))) \<noteq> [] \<and>
   length (split (L ''a*b'') (L ''*'')) < 4 \<and>
   AdapterEntryPoint env_all_ok (L ''a*b'') = (Inr (), []) \<and>
   fst (StartCLR env_not_loadable (L ''v4.0.30319'')) = Inr NULL \<and>
   invoked (snd (AdapterEntryPoint env_not_loadable (L ''a*b*c*d''))) = []"
proof -
  have four: "4 \<le> length (split (L ''a*b*c*d'') (L ''*''))"
    by (simp add: split_abcd)
  have host: "\<exists>p. fst (StartCLR env_all_ok (L ''v4.0.30319'')) = Inr p \<and> p \<noteq> NULL"
    by (simp add: StartCLR_all_ok NULL_def)
  have two: "length (split (L ''a*b'') (L ''*'')) < 4"
    by (simp add: split_ab)
  have null: "fst (StartCLR env_not_loadable (L ''v4.0.30319'')) = Inr NULL"
    by (simp add: StartCLR_not_loadable)
  from four host two null show ?thesis
    using invoke_only_after_parse_and_acquire [of env_all_ok "L ''a*b*c*d''"]
      invoke_only_after_parse_and_acquire [of env_all_ok "L ''a*b''"]
      invoke_only_after_parse_and_acquire [of env_not_loadable "L ''a*b*c*d''"]
    by blast
qed

text \<open>
  C2. Under the out-parameter contract, the acquirer returns null whenever one of its four
  steps fails, and otherwise returns the runtime host pointer that
  \<^verbatim>\<open>GetInterface\<close> handed out, which is not null.
\<close>

theorem StartCLR_null_iff_step_fails:
  assumes "com_contract env v"
  shows "(\<not> steps_ok env v \<longrightarrow> fst (StartCLR env v) = Inr NULL) \<and>
         (steps_ok env v \<longrightarrow>
            fst (StartCLR env v) = Inr (snd (GetInterface env)) \<and>
            snd (GetInterface env) \<noteq> NULL)"
  using assms
  by (auto simp: com_contract_def steps_ok_def StartCLR_def Let_def split_beta)

theorem StartCLR_null_iff_step_fails_witness:
  "com_contract env_all_ok (L ''v4.0.30319'') \<and> steps_ok env_all_ok (L ''v4.0.30319'') \<and>
   fst (StartCLR env_all_ok (L ''v4.0.30319'')) = Inr 3 \<and>
   snd (GetInterface env_all_ok) = 3 \<and> snd (GetInterface env_all_ok) \<noteq> NULL \<and>
   com_contract env_not_loadable (L ''v4.0.30319'') \<and>
   \<not> steps_ok env_not_loadable (L ''v4.0.30319'') \<and>
   fst (StartCLR env_not_loadable (L ''v4.0.30319'')) = Inr NULL"
proof -
  have ok: "steps_ok env_all_ok (L ''v4.0.30319'')"
    by (simp add: steps_ok_def env_all_ok_def)
  have bad: "\<not> steps_ok env_not_loadable (L ''v4.0.30319'')"
    by (simp add: steps_ok_def env_not_loadable_def env_all_ok_def)
  have host: "snd (GetInterface env_all_ok) = 3"
    by (simp add: env_all_ok_def)
  from ok bad show ?thesis
    using StartCLR_null_iff_step_fails [OF com_contract_all_ok, of "L ''v4.0.30319''"]
      StartCLR_null_iff_step_fails [OF com_contract_not_loadable, of "L ''v4.0.30319''"]
      com_contract_all_ok [of "L ''v4.0.30319''"]
      com_contract_not_loadable [of "L ''v4.0.30319''"]
    by (simp add: host)
qed

text \<open>
  C3. When the acquirer returns null, its trace is a run of calls without any release,
  followed by the release of every pointer those calls handed out, last acquired first;
  so as many pointers are released as were acquired.
\<close>

theorem StartCLR_failure_releases_in_reverse:
  assumes "fst (StartCLR env v) = Inr NULL"
  shows "released (snd (StartCLR env v)) = rev (acquired (snd (StartCLR env v))) \<and>
         length (released (snd (StartCLR env v))) = length (acquired (snd (StartCLR env v))) \<and>
         (\<exists>calls. snd (StartCLR env v) = calls @ map Ev_Release (rev (acquired calls)) \<and>
                  released calls = [])"
proof -
  have rel: "released (snd (StartCLR env v)) = rev (acquired (snd (StartCLR env v)))"
    using assms
    by (simp add: StartCLR_def Let_def split_beta released_def acquired_def cleanup_def
             split: if_splits)
  have "snd (StartCLR env v) =
          takeWhile (\<lambda>e. released_by e = []) (snd (StartCLR env v)) @
          map Ev_Release
            (rev (acquired (takeWhile (\<lambda>e. released_by e = []) (snd (StartCLR env v))))) \<and>
        released (takeWhile (\<lambda>e. released_by e = []) (snd (StartCLR env v))) = []"
    using assms
    by (simp add: StartCLR_def Let_def split_beta released_def acquired_def cleanup_def
             split: if_splits)
  then have "\<exists>calls. snd (StartCLR env v) = calls @ map Ev_Release (rev (acquired calls)) \<and>
                  released calls = []"
    by blast
  with rel show ?thesis by simp
qed

theorem StartCLR_failure_releases_in_reverse_witness:
  "fst (StartCLR env_not_loadable (L ''v4.0.30319'')) = Inr NULL \<and>
   acquired (snd (StartCLR env_not_loadable (L ''v4.0.30319''))) = [1, 2] \<and>
   released (snd (StartCLR env_not_loadable (L ''v4.0.30319''))) = [2, 1]"
proof -
  have null: "fst (StartCLR env_not_loadable (L ''v4.0.30319'')) = Inr NULL"
    by (simp add: StartCLR_not_loadable)
  have acq: "acquired (snd (StartCLR env_not_loadable (L ''v4.0.30319''))) = [1, 2]"
    by (simp add: StartCLR_not_loadable acquired_def NULL_def)
  from null acq show ?thesis
    using StartCLR_failure_releases_in_reverse [OF null] by simp
qed

text \<open>
  C4, as stated, fails: when every step succeeds the acquirer returns the host pointer and
  has released neither the metahost nor the runtime info.
\<close>

theorem StartCLR_success_keeps_intermediate_handles:
  "fst (StartCLR env_all_ok (L ''v4.0.30319'')) = Inr 3 \<and>
   intermediate (snd (StartCLR env_all_ok (L ''v4.0.30319''))) = [1, 2] \<and>
   released (snd (StartCLR env_all_ok (L ''v4.0.30319''))) = []"
  by (simp add: StartCLR_all_ok intermediate_def released_def NULL_def)

text \<open>
  C4, amended: on every exit path that returns null, each intermediate handle that was
  acquired (metahost, runtime info) is released before the acquirer returns.
\<close>

theorem StartCLR_failure_releases_intermediate:
  assumes "fst (StartCLR env v) = Inr NULL"
  shows "set (intermediate (snd (StartCLR env v))) \<subseteq> set (released (snd (StartCLR env v)))"
  using assms
  by (auto simp: StartCLR_def Let_def split_beta released_def intermediate_def cleanup_def
           split: if_splits)

theorem StartCLR_failure_releases_intermediate_witness:
  "fst (StartCLR env_not_loadable (L ''v4.0.30319'')) = Inr NULL \<and>
   intermediate (snd (StartCLR env_not_loadable (L ''v4.0.30319''))) = [1, 2] \<and>
   {1, 2} \<subseteq> set (released (snd (StartCLR env_not_loadable (L ''v4.0.30319''))))"
proof -
  have null: "fst (StartCLR env_not_loadable (L ''v4.0.30319'')) = Inr NULL"
    by (simp add: StartCLR_not_loadable)
  have mid: "intermediate (snd (StartCLR env_not_loadable (L ''v4.0.30319''))) = [1, 2]"
    by (simp add: StartCLR_not_loadable intermediate_def NULL_def)
  from null mid show ?thesis
    using StartCLR_failure_releases_intermediate [OF null] by simp
qed

text \<open>
  C5. Splitting on \<^verbatim>\<open>*\<close>: the two examples of the spec; the fields joined by the
  delimiter are the input again (order kept, nothing dropped); no field contains the
  delimiter (every occurrence splits); and there is one field more than there are
  delimiters (adjacent and boundary delimiters give empty fields).
\<close>

theorem split_star_fields:
  "split (L (''C:'' @ [CHR 0x5C] @ ''payload.dll*MyNamespace.MyType*Run*hello-world''))
         (L ''*'') =
     [L (''C:'' @ [CHR 0x5C] @ ''payload.dll''), L ''MyNamespace.MyType'', L ''Run'',
      L ''hello-world''] \<and>
   split (L ''a**c*d'') (L ''*'') = [L ''a'', L '''', L ''c'', L ''d''] \<and>
   join (L ''*'') (split s (L ''*'')) = s \<and>
   42 \<notin> set (concat (split s (L ''*''))) \<and>
   length (split s (L ''*'')) = Suc (count_list s 42)"
proof -
  have "split (L (''C:'' @ [CHR 0x5C] @ ''payload.dll*MyNamespace.MyType*Run*hello-world''))
         (L ''*'') =
     [L (''C:'' @ [CHR 0x5C] @ ''payload.dll''), L ''MyNamespace.MyType'', L ''Run'',
      L ''hello-world'']"
    by code_simp
  moreover have "split (L ''a**c*d'') (L ''*'') = [L ''a'', L '''', L ''c'', L ''d'']"
    by code_simp
  moreover have "join (L ''*'') (split s (L ''*'')) = s"
    by (rule join_split)
  moreover have "42 \<notin> set (concat (split s (L ''*'')))"
    unfolding L_star by (rule split_char_free)
  moreover have "length (split s (L ''*'')) = Suc (count_list s 42)"
    unfolding L_star by (rule length_split_char)
  ultimately show ?thesis by simp
qed

text \<open>
  C6. An input with more than four fields is handled exactly as the four-field input
  made of its first four fields: same result, same calls, with the same four arguments
  to the managed method.
\<close>

theorem extra_fields_ignored:
  assumes "4 < length (split arg (L ''*''))"
  shows "split (join (L ''*'') (take 4 (split arg (L ''*'')))) (L ''*'') =
           take 4 (split arg (L ''*'')) \<and>
         AdapterEntryPoint env arg =
           AdapterEntryPoint env (join (L ''*'') (take 4 (split arg (L ''*'')))) \<and>
         invoked (snd (AdapterEntryPoint env arg)) =
           (case fst (StartCLR env (L ''v4.0.30319'')) of
              Inl e \<Rightarrow> []
            | Inr pClr \<Rightarrow>
                if pClr \<noteq> NULL
                then [(pClr, split arg (L ''*'') ! 0, split arg (L ''*'') ! 1,
                       split arg (L ''*'') ! 2, split arg (L ''*'') ! 3)]
                else [])"
proof -
  let ?ps = "split arg (L ''*'')"
  let ?b = "join (L ''*'') (take 4 ?ps)"
  have ne: "take 4 ?ps \<noteq> []" using assms by auto
  have "set (concat (take 4 (split arg [42::wchar]))) \<subseteq> set (concat (split arg [42]))"
    by (auto dest: in_set_takeD)
  then have "42 \<notin> set (concat (take 4 (split arg [42::wchar])))"
    using split_char_free[of 42 arg] by blast
  with ne have sp: "split ?b (L ''*'') = take 4 ?ps"
    by (simp add: L_star split_join)
  have la: "4 \<le> length ?ps" using assms by simp
  have lb: "4 \<le> length (split ?b (L ''*''))" using assms sp by simp
  have same: "AdapterEntryPoint env arg = AdapterEntryPoint env ?b"
    unfolding AdapterEntryPoint_long[OF la] AdapterEntryPoint_long[OF lb] sp
    by (simp split: prod.splits sum.splits)
  have call: "invoked (snd (AdapterEntryPoint env arg)) =
           (case fst (StartCLR env (L ''v4.0.30319'')) of
              Inl e \<Rightarrow> []
            | Inr pClr \<Rightarrow>
                if pClr \<noteq> NULL
                then [(pClr, ?ps ! 0, ?ps ! 1, ?ps ! 2, ?ps ! 3)]
                else [])"
    using invoked_StartCLR [of env "L ''v4.0.30319''"]
    by (cases "StartCLR env (L ''v4.0.30319'')")
       (auto simp: AdapterEntryPoint_long [OF la] invoked_def split: sum.splits)
  show ?thesis
    by (rule conjI [OF sp conjI [OF same call]])
qed

theorem extra_fields_ignored_witness:
  "4 < length (split (L ''a*b*c*d*e'') (L ''*'')) \<and>
   AdapterEntryPoint env_all_ok (L ''a*b*c*d*e'') = AdapterEntryPoint env_all_ok (L ''a*b*c*d'') \<and>
   invoked (snd (AdapterEntryPoint env_all_ok (L ''a*b*c*d*e''))) =
     [(3, L ''a'', L ''b'', L ''c'', L ''d'')]"
proof -
  have five: "4 < length (split (L ''a*b*c*d*e'') (L ''*''))"
    by (simp add: split_abcde)
  have j: "join (L ''*'') (take 4 (split (L ''a*b*c*d*e'') (L ''*''))) = L ''a*b*c*d''"
    unfolding split_abcde by (simp add: L_def)
  have "4 \<le> length (split (L ''a*b*c*d'') (L ''*''))"
    by (simp add: split_abcd)
  then have inv: "invoked (snd (AdapterEntryPoint env_all_ok (L ''a*b*c*d''))) =
     [(3, L ''a'', L ''b'', L ''c'', L ''d'')]"
    by (simp add: AdapterEntryPoint_long StartCLR_all_ok NULL_def invoked_def split_abcd)
  have "AdapterEntryPoint env_all_ok (L ''a*b*c*d*e'') =
      AdapterEntryPoint env_all_ok (join (L ''*'') (take 4 (split (L ''a*b*c*d*e'') (L ''*''))))"
    by (rule extra_fields_ignored [OF five, of env_all_ok, THEN conjunct2, THEN conjunct1])
  then have same: "AdapterEntryPoint env_all_ok (L ''a*b*c*d*e'') =
      AdapterEntryPoint env_all_ok (L ''a*b*c*d'')"
    by (simp only: j)
  show ?thesis
    using five same inv by (simp only: simp_thms)
qed

text \<open>
  C8. Under the out-parameter contract the entry point returns normally, with no value,
  for every input; and neither the result code nor the numeric result of the managed
  method has any effect on what the entry point returns or does.
\<close>

theorem AdapterEntryPoint_silent:
  assumes "com_contract env (L ''v4.0.30319'')"
  shows "fst (AdapterEntryPoint env arg) = Inr () \<and>
         AdapterEntryPoint (env\<lparr>ExecuteInDefaultAppDomain := e\<rparr>) arg =
           AdapterEntryPoint env arg"
proof (cases "length (split arg (L ''*'')) < 4")
  case True
  then show ?thesis by (simp add: AdapterEntryPoint_short)
next
  case False
  then have four: "4 \<le> length (split arg (L ''*''))" by simp
  have "\<exists>p. fst (StartCLR env (L ''v4.0.30319'')) = Inr p"
    using StartCLR_returns [OF assms] by simp
  then have "fst (AdapterEntryPoint env arg) = Inr ()"
    by (cases "StartCLR env (L ''v4.0.30319'')") (auto simp: AdapterEntryPoint_long [OF four])
  moreover have "AdapterEntryPoint (env\<lparr>ExecuteInDefaultAppDomain := e\<rparr>) arg =
           AdapterEntryPoint env arg"
    by (simp add: AdapterEntryPoint_long [OF four] StartCLR_Execute_update)
  ultimately show ?thesis by simp
qed

theorem AdapterEntryPoint_silent_witness:
  "com_contract env_all_ok (L ''v4.0.30319'') \<and>
   fst (AdapterEntryPoint env_all_ok (L ''a*b*c*d'')) = Inr () \<and>
   AdapterEntryPoint (env_all_ok\<lparr>ExecuteInDefaultAppDomain := (\<lambda>a c f x. (0x80131513, 7))\<rparr>)
       (L ''a*b*c*d'') =
     AdapterEntryPoint env_all_ok (L ''a*b*c*d'')"
  using AdapterEntryPoint_silent [OF com_contract_all_ok, of "L ''a*b*c*d''"]
    com_contract_all_ok
  by blast

text \<open>
  C9. The only runtime version the entry point ever asks for is \<^verbatim>\<open>v4.0.30319\<close>, and
  two inputs with at least four fields each ask for the same versions, whatever their
  fields are.
\<close>

theorem runtime_version_fixed:
  "set (requested_versions (snd (AdapterEntryPoint env arg))) \<subseteq> {L ''v4.0.30319''} \<and>
   (4 \<le> length (split a (L ''*'')) \<and> 4 \<le> length (split b (L ''*'')) \<longrightarrow>
      requested_versions (snd (AdapterEntryPoint env a)) =
      requested_versions (snd (AdapterEntryPoint env b)))"
proof -
  have req: "requested_versions (snd (AdapterEntryPoint env x)) =
      (if 4 \<le> length (split x (L ''*'')) then requested_versions (snd (StartCLR env (L ''v4.0.30319'')))
       else [])" for x
  proof (cases "length (split x (L ''*'')) < 4")
    case True
    then show ?thesis by (simp add: AdapterEntryPoint_short requested_versions_def)
  next
    case False
    then have "4 \<le> length (split x (L ''*''))" by simp
    then show ?thesis
      by (cases "StartCLR env (L ''v4.0.30319'')")
         (auto simp: AdapterEntryPoint_long requested_versions_def split: sum.splits)
  qed
  show ?thesis
    by (auto simp: req requested_versions_StartCLR)
qed

theorem runtime_version_fixed_witness:
  "requested_versions (snd (AdapterEntryPoint env_all_ok (L ''a*b*c*d''))) = [L ''v4.0.30319''] \<and>
   requested_versions (snd (AdapterEntryPoint env_all_ok (L ''a*b*c*d*e''))) = [L ''v4.0.30319'']"
proof -
  have a: "4 \<le> length (split (L ''a*b*c*d'') (L ''*''))" by (simp add: split_abcd)
  have b: "4 \<le> length (split (L ''a*b*c*d*e'') (L ''*''))" by (simp add: split_abcde)
  have "requested_versions (snd (AdapterEntryPoint env_all_ok (L ''a*b*c*d''))) = [L ''v4.0.30319'']"
    by (simp add: AdapterEntryPoint_long [OF a] StartCLR_all_ok NULL_def requested_versions_def)
  with a b show ?thesis
    using runtime_version_fixed [of env_all_ok "L ''a*b*c*d''" "L ''a*b*c*d''" "L ''a*b*c*d*e''"]
    by simp
qed

text \<open>
  C10. When all four acquisition steps succeed and \<^verbatim>\<open>Start\<close> then fails, the acquirer
  still returns the non-null host pointer, and the entry point goes on to invoke the
  managed method on it.
\<close>

theorem Start_failure_still_invokes:
  assumes "com_contract env (L ''v4.0.30319'')"
    and "steps_ok env (L ''v4.0.30319'')"
    and "Start env \<noteq> S_OK"
  shows "fst (StartCLR env (L ''v4.0.30319'')) = Inr (snd (GetInterface env)) \<and>
         snd (GetInterface env) \<noteq> NULL \<and>
         (4 \<le> length (split arg (L ''*'')) \<longrightarrow>
            invoked (snd (AdapterEntryPoint env arg)) =
              [(snd (GetInterface env), split arg (L ''*'') ! 0, split arg (L ''*'') ! 1,
                split arg (L ''*'') ! 2, split arg (L ''*'') ! 3)])"
proof -
  have r: "fst (StartCLR env (L ''v4.0.30319'')) = Inr (snd (GetInterface env))"
    using StartCLR_returns [OF assms(1)] assms(2) by simp
  have nn: "snd (GetInterface env) \<noteq> NULL"
    using assms(1,2) by (simp add: com_contract_def steps_ok_def)
  have "invoked (snd (AdapterEntryPoint env arg)) =
              [(snd (GetInterface env), split arg (L ''*'') ! 0, split arg (L ''*'') ! 1,
                split arg (L ''*'') ! 2, split arg (L ''*'') ! 3)]"
    if four: "4 \<le> length (split arg (L ''*''))"
    using r nn invoked_StartCLR [of env "L ''v4.0.30319''"]
    by (cases "StartCLR env (L ''v4.0.30319'')")
       (auto simp: AdapterEntryPoint_long [OF four] invoked_def)
  with r nn show ?thesis by simp
qed

theorem Start_failure_still_invokes_witness:
  "com_contract env_start_fails (L ''v4.0.30319'') \<and>
   steps_ok env_start_fails (L ''v4.0.30319'') \<and>
   Start env_start_fails \<noteq> S_OK \<and>
   fst (StartCLR env_start_fails (L ''v4.0.30319'')) = Inr 3 \<and>
   4 \<le> length (split (L ''a*b*c*d'') (L ''*'')) \<and>
   invoked (snd (AdapterEntryPoint env_start_fails (L ''a*b*c*d''))) =
     [(3, L ''a'', L ''b'', L ''c'', L ''d'')]"
proof -
  have ok: "steps_ok env_start_fails (L ''v4.0.30319'')"
    by (simp add: steps_ok_def env_start_fails_def env_all_ok_def)
  have bad: "Start env_start_fails \<noteq> S_OK"
    by (simp add: env_start_fails_def env_all_ok_def S_OK_def)
  have four: "4 \<le> length (split (L ''a*b*c*d'') (L ''*''))"
    by (simp add: split_abcd)
  have host: "snd (GetInterface env_start_fails) = 3"
    by (simp add: env_start_fails_def env_all_ok_def)
  from ok bad four show ?thesis
    using Start_failure_still_invokes [OF com_contract_start_fails ok bad, of "L ''a*b*c*d''"]
      com_contract_start_fails
    by (simp add: host split_abcd)
qed

end
